theory Spec2Isabelle
  imports Complex_Main "HOL-Library.AList" "HOL-Library.Sublist"
begin

section \<open>The signaling relay (Socket.IO handler)\<close>

text \<open>
  The relay keeps two JavaScript \<^verbatim>\<open>Map\<close>s: \<^verbatim>\<open>rooms\<close>, from sharing code to room
  object, and \<^verbatim>\<open>peers\<close>, from socket id to the code and role of that connection. A
  \<^verbatim>\<open>Map\<close> iterates in insertion order, \<^verbatim>\<open>set\<close> on a present key replaces the value in
  place and \<^verbatim>\<open>delete\<close> removes the entry: this is an association list with
  \<^const>\<open>AList.update\<close>, \<^const>\<open>AList.delete\<close> and \<^const>\<open>map_of\<close> for \<^verbatim>\<open>get\<close>.

  A socket id is the string Socket.IO assigns to a connection; it is never empty, so the
  truthiness tests \<^verbatim>\<open>if (room.viewer)\<close> and \<^verbatim>\<open>if (peer)\<close> of the source are tests against
  \<^verbatim>\<open>null\<close> and \<^verbatim>\<open>undefined\<close>, written here as tests against \<^const>\<open>None\<close>.
  \<^verbatim>\<open>Date.now()\<close> is an integer number of milliseconds. \<^verbatim>\<open>console.log\<close> and the Socket.IO
  room membership \<^verbatim>\<open>socket.join(code)\<close> (never read by the handlers) are left out, and so
  are the \<^verbatim>\<open>offer\<close>, \<^verbatim>\<open>answer\<close> and \<^verbatim>\<open>ice-candidate\<close> handlers, which forward a payload and
  touch neither map. What a handler emits to other sockets and what it passes to the
  callback of the request is returned beside the new state.
\<close>

type_synonym socket_id = string

record room =
  host :: socket_id
  viewer :: "socket_id option"
  createdAt :: int

datatype role = Host | Viewer

record peer =
  code :: string
  role :: role

record relay =
  rooms :: "(string \<times> room) list"
  peers :: "(socket_id \<times> peer) list"

text \<open>
  The callback replies \<^verbatim>\<open>{success: true, code}\<close>, \<^verbatim>\<open>{success: true, hostId}\<close> and
  \<^verbatim>\<open>{success: false, message}\<close>, and the events emitted to another socket.
\<close>

datatype reply = CodeReply string | JoinReply socket_id | ErrorReply string

datatype notification = ViewerJoined socket_id | HostDisconnected | ViewerDisconnected

text \<open>
  \<^verbatim>\<open>generateSharingCode\<close>: three times \<^verbatim>\<open>Math.floor(Math.random() * 900 + 100)\<close>, joined by
  dashes in a template string. The three results of \<^verbatim>\<open>Math.random()\<close> are parameters;
  a template string prints an integer in decimal. The product and sum are taken over the
  reals: the rounding of the floating-point operations, which could move a draw that lies
  within rounding distance of a boundary to the neighbouring code, is not modelled, and
  nothing below depends on which code a given draw yields.
\<close>

definition digit_char :: "nat \<Rightarrow> char" where
  "digit_char n = ''0123456789'' ! n"

fun decimal :: "nat \<Rightarrow> string" where
  "decimal n = (if n < 10 then [digit_char n] else decimal (n div 10) @ [digit_char (n mod 10)])"

declare decimal.simps [simp del]

definition number_to_string :: "int \<Rightarrow> string" where
  "number_to_string i = (if i < 0 then ''-'' @ decimal (nat (- i)) else decimal (nat i))"

definition generateSharingCode :: "real \<Rightarrow> real \<Rightarrow> real \<Rightarrow> string" where
  "generateSharingCode r1 r2 r3 =
     (let part1 = \<lfloor>r1 * 900 + 100\<rfloor>;
          part2 = \<lfloor>r2 * 900 + 100\<rfloor>;
          part3 = \<lfloor>r3 * 900 + 100\<rfloor>
      in number_to_string part1 @ ''-'' @ number_to_string part2 @ ''-'' @ number_to_string part3)"

text \<open>
  The \<^verbatim>\<open>generate-code\<close> handler of the socket \<open>sid\<close>: one call of
  \<^verbatim>\<open>generateSharingCode\<close>, then \<^verbatim>\<open>rooms.set\<close> and \<^verbatim>\<open>peers.set\<close>, whatever the maps held.
\<close>

definition generate_code :: "socket_id \<Rightarrow> real \<Rightarrow> real \<Rightarrow> real \<Rightarrow> int \<Rightarrow> relay \<Rightarrow> relay \<times> reply" where
  "generate_code sid r1 r2 r3 now st =
     (let c = generateSharingCode r1 r2 r3
      in (st\<lparr>rooms := AList.update c \<lparr>host = sid, viewer = None, createdAt = now\<rparr> (rooms st),
              peers := AList.update sid \<lparr>code = c, role = Host\<rparr> (peers st)\<rparr>,
          CodeReply c))"

text \<open>
  The \<^verbatim>\<open>join-room\<close> handler: the two early returns leave both maps alone; otherwise the
  viewer slot of the room object is assigned, the joiner is bound, and the host is sent
  \<^verbatim>\<open>viewer-joined\<close>.
\<close>

definition join_room ::
  "socket_id \<Rightarrow> string \<Rightarrow> relay \<Rightarrow> relay \<times> (socket_id \<times> notification) list \<times> reply" where
  "join_room sid c st =
     (case map_of (rooms st) c of
        None \<Rightarrow> (st, [], ErrorReply ''Invalid sharing code'')
      | Some rm \<Rightarrow>
          if viewer rm \<noteq> None then (st, [], ErrorReply ''Room is full'')
          else (st\<lparr>rooms := AList.update c (rm\<lparr>viewer := Some sid\<rparr>) (rooms st),
                   peers := AList.update sid \<lparr>code = c, role = Viewer\<rparr> (peers st)\<rparr>,
                [(host rm, ViewerJoined sid)],
                JoinReply (host rm)))"

text \<open>
  The \<^verbatim>\<open>disconnect\<close> handler: nothing happens for a socket without a peer record; with
  one, the room of the recorded code is looked up, the host branch is tested before the
  viewer branch, and the peer record of the socket itself is deleted in every case.
\<close>

definition disconnect :: "socket_id \<Rightarrow> relay \<Rightarrow> relay \<times> (socket_id \<times> notification) list" where
  "disconnect sid st =
     (case map_of (peers st) sid of
        None \<Rightarrow> (st, [])
      | Some p \<Rightarrow>
          (case map_of (rooms st) (code p) of
             None \<Rightarrow> (st\<lparr>peers := AList.delete sid (peers st)\<rparr>, [])
           | Some rm \<Rightarrow>
               if host rm = sid then
                 (st\<lparr>rooms := AList.delete (code p) (rooms st),
                     peers := AList.delete sid (peers st)\<rparr>,
                  (case viewer rm of None \<Rightarrow> [] | Some v \<Rightarrow> [(v, HostDisconnected)]))
               else if viewer rm = Some sid then
                 (st\<lparr>rooms := AList.update (code p) (rm\<lparr>viewer := None\<rparr>) (rooms st),
                     peers := AList.delete sid (peers st)\<rparr>,
                  [(host rm, ViewerDisconnected)])
               else (st\<lparr>peers := AList.delete sid (peers st)\<rparr>, [])))"

text \<open>
  The cleanup callback of \<^verbatim>\<open>setInterval\<close>: a loop over the entries of \<^verbatim>\<open>rooms\<close> that
  deletes from the map, while it iterates, every room with
  \<^verbatim>\<open>now - room.createdAt > ONE_HOUR\<close>.
\<close>

definition ONE_HOUR :: int where
  "ONE_HOUR = 60 * 60 * 1000"

fun sweep_loop :: "int \<Rightarrow> (string \<times> room) list \<Rightarrow> (string \<times> room) list \<Rightarrow> (string \<times> room) list" where
  "sweep_loop now [] rs = rs"
| "sweep_loop now ((c, rm) # entries) rs =
     sweep_loop now entries (if now - createdAt rm > ONE_HOUR then AList.delete c rs else rs)"

definition sweep :: "int \<Rightarrow> relay \<Rightarrow> relay" where
  "sweep now st = st\<lparr>rooms := sweep_loop now (rooms st) (rooms st)\<rparr>"

text \<open>
  The relay as a transition system: it starts with both maps empty, and each request,
  disconnection or cleanup tick is one step. \<open>draws c e\<close> says that \<open>e\<close> is a
  \<^verbatim>\<open>generate-code\<close> request whose random draws give the code \<open>c\<close>.
\<close>

datatype relay_event =
    GenerateCode socket_id real real real int
  | JoinRoom socket_id string
  | Disconnect socket_id
  | Sweep int

fun step :: "relay \<Rightarrow> relay_event \<Rightarrow> relay" where
  "step st (GenerateCode sid r1 r2 r3 now) = fst (generate_code sid r1 r2 r3 now st)"
| "step st (JoinRoom sid c) = fst (join_room sid c st)"
| "step st (Disconnect sid) = fst (disconnect sid st)"
| "step st (Sweep now) = sweep now st"

definition init :: relay where
  "init = \<lparr>rooms = [], peers = []\<rparr>"

definition run :: "relay \<Rightarrow> relay_event list \<Rightarrow> relay" where
  "run st evs = foldl step st evs"

fun draws :: "string \<Rightarrow> relay_event \<Rightarrow> bool" where
  "draws c (GenerateCode sid r1 r2 r3 now) = (generateSharingCode r1 r2 r3 = c)"
| "draws c _ = False"

text \<open>
  A reachable state used in the examples below: \<^verbatim>\<open>H\<close> has generated the code
  \<^verbatim>\<open>550-550-550\<close> (each random draw was one half) and \<^verbatim>\<open>V\<close> has joined it.
\<close>

definition paired_relay :: relay where
  "paired_relay = run init [GenerateCode ''H'' (1/2) (1/2) (1/2) 1000, JoinRoom ''V'' ''550-550-550'']"


section \<open>The page script\<close>

subsection \<open>Sharing-code input formatting\<close>

text \<open>
  \<^verbatim>\<open>formatSharingCode\<close> strips every character that is not a decimal digit
  (\<^verbatim>\<open>/\D/g\<close>) and re-inserts dashes; \<^verbatim>\<open>slice(a, b)\<close> on a string is \<^const>\<open>take\<close> after
  \<^const>\<open>drop\<close>, and never fails out of range.
\<close>

definition is_digit :: "char \<Rightarrow> bool" where
  "is_digit c = (c \<in> set ''0123456789'')"

definition formatSharingCode :: "string \<Rightarrow> string" where
  "formatSharingCode input =
     (let digits = filter is_digit input in
      if length digits \<le> 3 then digits
      else if length digits \<le> 6 then take 3 digits @ ''-'' @ drop 3 digits
      else take 3 digits @ ''-'' @ take 3 (drop 3 digits) @ ''-'' @ take 3 (drop 6 digits))"


subsection \<open>The SDP transformation\<close>

text \<open>
  \<^verbatim>\<open>optimizeSDPForLatency\<close> applies two global regular-expression replacements to the
  descriptor text, one after the other:
  \<^verbatim>\<open>sdp.replace(/a=fmtp:(\d+) /g, 'a=fmtp:$1 x-google-max-bitrate=10000;x-google-min-bitrate=2000;x-google-start-bitrate=5000;')\<close>
  and then
  \<^verbatim>\<open>replace(/a=rtpmap:(\d+) H264/g, 'a=rtpmap:$1 H264\r\na=fmtp:$1 profile-level-id=42e01f;level-asymmetry-allowed=1;packetization-mode=1')\<close>.

  A matcher tries its pattern at the head of the text and returns the captured digits
  and the text after the match. \<^verbatim>\<open>\d+\<close> is greedy; the character after the digits must
  be the space of the pattern, and giving digits back cannot help, since the character
  after a shorter run is a digit. A global replace scans from the left, copies a
  character where no match starts, and continues after a match where it ends. The
  \<^verbatim>\<open>catch\<close> branch of the source is not reachable for a string argument.
\<close>

definition CRLF :: string where
  "CRLF = [CHR 0x0D, CHR 0x0A]"

definition bitrate_hints :: string where
  "bitrate_hints = ''x-google-max-bitrate=10000;x-google-min-bitrate=2000;x-google-start-bitrate=5000;''"

definition h264_profile :: string where
  "h264_profile = ''profile-level-id=42e01f;level-asymmetry-allowed=1;packetization-mode=1''"

definition match_fmtp :: "string \<Rightarrow> (string \<times> string) option" where
  "match_fmtp s =
     (if prefix ''a=fmtp:'' s then
        (let r = drop 7 s; ds = takeWhile is_digit r; r' = dropWhile is_digit r
         in if ds \<noteq> [] \<and> prefix '' '' r' then Some (ds, drop 1 r') else None)
      else None)"

definition match_h264 :: "string \<Rightarrow> (string \<times> string) option" where
  "match_h264 s =
     (if prefix ''a=rtpmap:'' s then
        (let r = drop 9 s; ds = takeWhile is_digit r; r' = dropWhile is_digit r
         in if ds \<noteq> [] \<and> prefix '' H264'' r' then Some (ds, drop 5 r') else None)
      else None)"

function replace_fmtp :: "string \<Rightarrow> string" where
  "replace_fmtp [] = []"
| "replace_fmtp (c # cs) =
     (case match_fmtp (c # cs) of
        Some (pt, rest) \<Rightarrow> ''a=fmtp:'' @ pt @ '' '' @ bitrate_hints @ replace_fmtp rest
      | None \<Rightarrow> c # replace_fmtp cs)"
  by pat_completeness auto
termination
proof (relation "measure length")
  fix c cs m pt rest
  assume "match_fmtp (c # cs) = Some m" and "(pt, rest) = m"
  then have "prefix ''a=fmtp:'' (c # cs)"
    and "rest = drop 1 (dropWhile is_digit (drop 7 (c # cs)))"
    by (auto simp: match_fmtp_def Let_def split: if_splits)
  moreover have "length (dropWhile is_digit (drop 7 (c # cs))) \<le> length (drop 7 (c # cs))"
    by (rule length_dropWhile_le)
  ultimately show "(rest, c # cs) \<in> measure length"
    by (auto simp: prefix_def)
qed simp_all

function replace_h264 :: "string \<Rightarrow> string" where
  "replace_h264 [] = []"
| "replace_h264 (c # cs) =
     (case match_h264 (c # cs) of
        Some (pt, rest) \<Rightarrow>
          ''a=rtpmap:'' @ pt @ '' H264'' @ CRLF @ ''a=fmtp:'' @ pt @ '' '' @ h264_profile
            @ replace_h264 rest
      | None \<Rightarrow> c # replace_h264 cs)"
  by pat_completeness auto
termination
proof (relation "measure length")
  fix c cs m pt rest
  assume "match_h264 (c # cs) = Some m" and "(pt, rest) = m"
  then have "prefix ''a=rtpmap:'' (c # cs)"
    and "rest = drop 5 (dropWhile is_digit (drop 9 (c # cs)))"
    by (auto simp: match_h264_def Let_def split: if_splits)
  moreover have "length (dropWhile is_digit (drop 9 (c # cs))) \<le> length (drop 9 (c # cs))"
    by (rule length_dropWhile_le)
  ultimately show "(rest, c # cs) \<in> measure length"
    by (auto simp: prefix_def)
qed simp_all

definition optimizeSDPForLatency :: "string \<Rightarrow> string" where
  "optimizeSDPForLatency sdp =
     (let modifiedSdp = replace_fmtp sdp;
          modifiedSdp = replace_h264 modifiedSdp
      in modifiedSdp)"


text \<open>
  Whether a pattern matches anywhere in a text, and the lines of a descriptor (the text
  between line breaks), used to state properties of the transformation.
\<close>

fun fmtp_occurs :: "string \<Rightarrow> bool" where
  "fmtp_occurs [] = False"
| "fmtp_occurs (c # cs) = (case match_fmtp (c # cs) of Some m \<Rightarrow> True | None \<Rightarrow> fmtp_occurs cs)"

fun h264_occurs :: "string \<Rightarrow> bool" where
  "h264_occurs [] = False"
| "h264_occurs (c # cs) = (case match_h264 (c # cs) of Some m \<Rightarrow> True | None \<Rightarrow> h264_occurs cs)"

fun sdp_lines :: "string \<Rightarrow> string list" where
  "sdp_lines [] = [[]]"
| "sdp_lines (c # cs) =
     (if c = CHR 0x0D \<and> prefix [CHR 0x0A] cs then [] # sdp_lines (tl cs)
      else (case sdp_lines cs of [] \<Rightarrow> [[c]] | l # ls \<Rightarrow> (c # l) # ls))"

definition example_sdp :: string where
  "example_sdp =
     ''m=video 9 UDP/TLS/RTP/SAVPF 96'' @ CRLF
     @ ''a=rtcp-mux'' @ CRLF
     @ ''a=rtpmap:96 H264/90000'' @ CRLF
     @ ''a=rtcp-fb:96 nack'' @ CRLF
     @ ''a=fmtp:96 level-asymmetry-allowed=1'' @ CRLF"

subsection \<open>The remote-control transport (viewer side)\<close>

text \<open>
  The state of the page that the control functions read and write: the data channel
  (\<^verbatim>\<open>null\<close>, or a channel with its \<^verbatim>\<open>readyState\<close>), the flag \<^verbatim>\<open>remoteControlEnabled\<close>,
  the queue \<^verbatim>\<open>eventBatchQueue\<close> (oldest event first, \<^verbatim>\<open>push\<close> appends), the interval
  handle \<^verbatim>\<open>eventBatchInterval\<close> (\<^verbatim>\<open>null\<close> or a running timer), \<^verbatim>\<open>lastMouseMoveTime\<close>, and
  of the document: whether an element with id \<^verbatim>\<open>remoteVideo\<close> exists, whether the input
  listeners are attached, the cursor style of the video element and the status messages
  shown. \<^verbatim>\<open>sent\<close> records the messages handed to \<^verbatim>\<open>dataChannel.send\<close>, oldest first;
  \<^verbatim>\<open>JSON.stringify\<close> is left out, a message is the object it serialises.

  The normalised coordinates and wheel deltas are floating-point numbers computed by
  the handlers from the DOM event; they are parameters here.
  \<^verbatim>\<open>RTCDataChannel.send\<close> throws \<^verbatim>\<open>InvalidStateError\<close> unless the channel is open, and a
  call on \<^verbatim>\<open>null\<close> is a \<^verbatim>\<open>TypeError\<close>: an exception is the left summand of the result.
\<close>

datatype ready_state = Connecting | Open | Closing | Closed

datatype control_event =
    MouseMove real real
  | MouseDown int real real
  | MouseUp int real real
  | Wheel real real int
  | KeyDown string string bool bool bool bool
  | KeyUp string string bool bool bool bool

datatype message =
    Batch "(control_event \<times> int) list" int
  | Single control_event int

datatype js_error = TypeError | InvalidStateError

datatype status = ControlEnabled | ControlDisabled

record client =
  dataChannel :: "ready_state option"
  remoteControlEnabled :: bool
  eventBatchQueue :: "(control_event \<times> int) list"
  eventBatchInterval :: bool
  lastMouseMoveTime :: int
  remoteVideo :: bool
  listening :: bool
  cursor :: string
  statusMessages :: "status list"
  sent :: "message list"

text \<open>
  \<^verbatim>\<open>remoteControlConfig\<close>: the flush period (the timer is an event of the model, so the
  period itself is not read), the mouse-move throttle and the largest batch.
\<close>

definition batchInterval :: int where
  "batchInterval = 16"

definition mouseMoveThrottle :: int where
  "mouseMoveThrottle = 8"

definition maxBatchSize :: nat where
  "maxBatchSize = 50"

text \<open>
  \<^verbatim>\<open>dataChannel.send(m)\<close>, and the test
  \<^verbatim>\<open>dataChannel && dataChannel.readyState === 'open'\<close> that guards both callers.
\<close>

definition channel_send :: "message \<Rightarrow> client \<Rightarrow> js_error + client" where
  "channel_send m st =
     (case dataChannel st of
        None \<Rightarrow> Inl TypeError
      | Some rs \<Rightarrow> if rs = Open then Inr (st\<lparr>sent := sent st @ [m]\<rparr>) else Inl InvalidStateError)"

definition channel_open :: "client \<Rightarrow> bool" where
  "channel_open st = (case dataChannel st of None \<Rightarrow> False | Some rs \<Rightarrow> rs = Open)"

text \<open>
  The callback that \<^verbatim>\<open>startEventBatching\<close> hands to \<^verbatim>\<open>setInterval\<close>:
  \<^verbatim>\<open>splice(0, maxBatchSize)\<close> takes the first events out of the queue, then one message
  \<^verbatim>\<open>{type: 'batch', events: batch, timestamp: Date.now()}\<close> is sent.
\<close>

definition flush_tick :: "int \<Rightarrow> client \<Rightarrow> js_error + client" where
  "flush_tick now st =
     (if length (eventBatchQueue st) > 0 \<and> channel_open st then
        (let batch = take maxBatchSize (eventBatchQueue st);
             st' = st\<lparr>eventBatchQueue := drop maxBatchSize (eventBatchQueue st)\<rparr>
         in channel_send (Batch batch now) st')
      else Inr st)"

definition startEventBatching :: "client \<Rightarrow> client" where
  "startEventBatching st = (if eventBatchInterval st then st else st\<lparr>eventBatchInterval := True\<rparr>)"

definition stopEventBatching :: "client \<Rightarrow> client" where
  "stopEventBatching st =
     (if eventBatchInterval st then st\<lparr>eventBatchInterval := False, eventBatchQueue := []\<rparr> else st)"

definition queueControlEvent :: "control_event \<Rightarrow> int \<Rightarrow> client \<Rightarrow> client" where
  "queueControlEvent e now st = st\<lparr>eventBatchQueue := eventBatchQueue st @ [(e, now)]\<rparr>"

definition sendControlEventImmediate :: "control_event \<Rightarrow> int \<Rightarrow> client \<Rightarrow> js_error + client" where
  "sendControlEventImmediate e now st =
     (if channel_open st then channel_send (Single e now) st else Inr st)"

text \<open>
  \<^verbatim>\<open>toggleRemoteControl\<close> sets the flag first, then looks the video element up and returns
  if there is none; only then does it start or stop the batching, attach or detach the
  listeners, set the cursor style and show a status message.
\<close>

definition toggleRemoteControl :: "bool \<Rightarrow> client \<Rightarrow> client" where
  "toggleRemoteControl enabled st =
     (let st1 = st\<lparr>remoteControlEnabled := enabled\<rparr> in
      if \<not> remoteVideo st1 then st1
      else if enabled then
        (startEventBatching st1)\<lparr>listening := True, cursor := ''none'',
           statusMessages := statusMessages st1 @ [ControlEnabled]\<rparr>
      else
        (stopEventBatching st1)\<lparr>listening := False, cursor := ''default'',
           statusMessages := statusMessages st1 @ [ControlDisabled]\<rparr>)"

text \<open>
  The input handlers. Each returns at once while control is disabled. Mouse moves
  (throttled) and wheel events are queued; button and key events are sent immediately.
\<close>

definition handleMouseMove :: "int \<Rightarrow> real \<Rightarrow> real \<Rightarrow> client \<Rightarrow> client" where
  "handleMouseMove now x y st =
     (if \<not> remoteControlEnabled st then st
      else if now - lastMouseMoveTime st < mouseMoveThrottle then st
      else queueControlEvent (MouseMove x y) now (st\<lparr>lastMouseMoveTime := now\<rparr>))"

definition handleMouseDown :: "int \<Rightarrow> int \<Rightarrow> real \<Rightarrow> real \<Rightarrow> client \<Rightarrow> js_error + client" where
  "handleMouseDown now button x y st =
     (if \<not> remoteControlEnabled st then Inr st
      else sendControlEventImmediate (MouseDown button x y) now st)"

definition handleMouseUp :: "int \<Rightarrow> int \<Rightarrow> real \<Rightarrow> real \<Rightarrow> client \<Rightarrow> js_error + client" where
  "handleMouseUp now button x y st =
     (if \<not> remoteControlEnabled st then Inr st
      else sendControlEventImmediate (MouseUp button x y) now st)"

definition handleMouseWheel :: "int \<Rightarrow> real \<Rightarrow> real \<Rightarrow> int \<Rightarrow> client \<Rightarrow> client" where
  "handleMouseWheel now deltaX deltaY deltaMode st =
     (if \<not> remoteControlEnabled st then st
      else queueControlEvent (Wheel deltaX deltaY deltaMode) now st)"

definition handleKeyDown ::
  "int \<Rightarrow> string \<Rightarrow> string \<Rightarrow> bool \<Rightarrow> bool \<Rightarrow> bool \<Rightarrow> bool \<Rightarrow> client \<Rightarrow> js_error + client" where
  "handleKeyDown now key kcode ctrlKey shiftKey altKey metaKey st =
     (if \<not> remoteControlEnabled st then Inr st
      else if key = ''F5'' \<or> (ctrlKey \<and> key = ''r'') then Inr st
      else if key = ''F11'' then Inr st
      else if key = ''F12'' then Inr st
      else sendControlEventImmediate (KeyDown key kcode ctrlKey shiftKey altKey metaKey) now st)"

definition handleKeyUp ::
  "int \<Rightarrow> string \<Rightarrow> string \<Rightarrow> bool \<Rightarrow> bool \<Rightarrow> bool \<Rightarrow> bool \<Rightarrow> client \<Rightarrow> js_error + client" where
  "handleKeyUp now key kcode ctrlKey shiftKey altKey metaKey st =
     (if \<not> remoteControlEnabled st then Inr st
      else sendControlEventImmediate (KeyUp key kcode ctrlKey shiftKey altKey metaKey) now st)"

text \<open>
  The \<^verbatim>\<open>onclose\<close> handler that \<^verbatim>\<open>setupDataChannel\<close> installs on a channel object: it
  reads the flag and calls \<^verbatim>\<open>toggleRemoteControl(false)\<close>. It never writes the variable
  \<^verbatim>\<open>dataChannel\<close>, which may by then hold another channel; what the variable holds and
  the \<^verbatim>\<open>readyState\<close> of that channel change by the event \<open>SetChannel\<close> below.
\<close>

definition channel_onclose :: "client \<Rightarrow> client" where
  "channel_onclose st = (if remoteControlEnabled st then toggleRemoteControl False st else st)"

text \<open>
  What can happen to the page, one event at a time: the interval timer fires (only while
  it is set), the toggle is switched, a DOM input event reaches its handler, the data
  channel is replaced or changes state, the channel's \<^verbatim>\<open>onclose\<close> handler runs, and the
  video element appears or disappears. A handler is run whether or not its listener is
  attached (its own test of \<^verbatim>\<open>remoteControlEnabled\<close> decides), which allows every run
  of the page and more. An exception ends the run.
\<close>

datatype client_event =
    Tick int
  | Toggle bool
  | OnMouseMove int real real
  | OnMouseDown int int real real
  | OnMouseUp int int real real
  | OnWheel int real real int
  | OnKeyDown int string string bool bool bool bool
  | OnKeyUp int string string bool bool bool bool
  | SetChannel "ready_state option"
  | ChannelClosed
  | VideoElement bool

fun client_step :: "client \<Rightarrow> client_event \<Rightarrow> js_error + client" where
  "client_step st (Tick now) = (if eventBatchInterval st then flush_tick now st else Inr st)"
| "client_step st (Toggle enabled) = Inr (toggleRemoteControl enabled st)"
| "client_step st (OnMouseMove now x y) = Inr (handleMouseMove now x y st)"
| "client_step st (OnMouseDown now button x y) = handleMouseDown now button x y st"
| "client_step st (OnMouseUp now button x y) = handleMouseUp now button x y st"
| "client_step st (OnWheel now dx dy dm) = Inr (handleMouseWheel now dx dy dm st)"
| "client_step st (OnKeyDown now key kcode c s a m) = handleKeyDown now key kcode c s a m st"
| "client_step st (OnKeyUp now key kcode c s a m) = handleKeyUp now key kcode c s a m st"
| "client_step st (SetChannel ch) = Inr (st\<lparr>dataChannel := ch\<rparr>)"
| "client_step st ChannelClosed = Inr (channel_onclose st)"
| "client_step st (VideoElement present) = Inr (st\<lparr>remoteVideo := present\<rparr>)"

fun client_run :: "client \<Rightarrow> client_event list \<Rightarrow> js_error + client" where
  "client_run st [] = Inr st"
| "client_run st (ev # evs) =
     (case client_step st ev of Inl err \<Rightarrow> Inl err | Inr st' \<Rightarrow> client_run st' evs)"

text \<open>
  A series of calls of \<^verbatim>\<open>queueControlEvent\<close>, first call first.
\<close>

fun enqueue_all :: "(control_event \<times> int) list \<Rightarrow> client \<Rightarrow> client" where
  "enqueue_all [] st = st"
| "enqueue_all ((e, now) # es) st = enqueue_all es (queueControlEvent e now st)"

text \<open>
  The state in which nothing is pending: control disabled, no timer, an empty queue.
\<close>

definition quiet :: "client \<Rightarrow> bool" where
  "quiet st = (\<not> remoteControlEnabled st \<and> \<not> eventBatchInterval st \<and> eventBatchQueue st = [])"

text \<open>
  Two states used in the examples: the page as loaded, and a viewer with control
  enabled, an open channel and three events waiting in the queue.
\<close>

definition initial_client :: client where
  "initial_client =
     \<lparr>dataChannel = None, remoteControlEnabled = False, eventBatchQueue = [],
      eventBatchInterval = False, lastMouseMoveTime = 0, remoteVideo = False,
      listening = False, cursor = [], statusMessages = [], sent = []\<rparr>"

definition controlling_client :: client where
  "controlling_client =
     \<lparr>dataChannel = Some Open, remoteControlEnabled = True,
      eventBatchQueue = [(MouseMove (1/4) (1/2), 100), (Wheel 0 120 0, 104), (MouseMove (1/2) (1/2), 110)],
      eventBatchInterval = True, lastMouseMoveTime = 110, remoteVideo = True,
      listening = True, cursor = ''none'', statusMessages = [ControlEnabled], sent = []\<rparr>"


section \<open>Properties of the relay\<close>

lemma sweep_loop_map_of:
  "map_of (sweep_loop now es rs) c =
     (if \<exists>rm. (c, rm) \<in> set es \<and> now - createdAt rm > ONE_HOUR then None else map_of rs c)"
  by (induction es arbitrary: rs) (auto simp: delete_conv')

lemma sweep_map_of:
  assumes "distinct (map fst (rooms st))"
  shows "map_of (rooms (sweep now st)) c =
     (case map_of (rooms st) c of None \<Rightarrow> None
      | Some rm \<Rightarrow> if now - createdAt rm > ONE_HOUR then None else Some rm)"
  using assms
  by (auto simp: sweep_def sweep_loop_map_of split: option.splits
        dest: map_of_SomeD eq_key_imp_eq_value)

lemma distinct_sweep_loop: "distinct (map fst rs) \<Longrightarrow> distinct (map fst (sweep_loop now es rs))"
  by (induction es arbitrary: rs) (auto simp: distinct_delete)

lemma distinct_step: "distinct (map fst (rooms st)) \<Longrightarrow> distinct (map fst (rooms (step st e)))"
  by (cases e)
     (auto simp: generate_code_def join_room_def disconnect_def sweep_def Let_def
        distinct_update distinct_delete distinct_sweep_loop split: option.splits)

lemma distinct_run: "distinct (map fst (rooms st)) \<Longrightarrow> distinct (map fst (rooms (run st evs)))"
  unfolding run_def by (induction evs arbitrary: st) (auto simp: distinct_step)

lemma absent_step:
  "map_of (rooms st) c = None \<Longrightarrow> \<not> draws c e \<Longrightarrow> map_of (rooms (step st e)) c = None"
  by (cases e)
     (auto simp: generate_code_def join_room_def disconnect_def sweep_def Let_def
        update_conv' delete_conv' sweep_loop_map_of split: option.splits)

lemma absent_run:
  "map_of (rooms st) c = None \<Longrightarrow> \<forall>e\<in>set evs. \<not> draws c e \<Longrightarrow> map_of (rooms (run st evs)) c = None"
  unfolding run_def by (induction evs arbitrary: st) (auto simp: absent_step)


lemma generate_code_rooms:
  "map_of (rooms (fst (generate_code sid r1 r2 r3 now st))) =
     (map_of (rooms st))(generateSharingCode r1 r2 r3 \<mapsto> \<lparr>host = sid, viewer = None, createdAt = now\<rparr>)"
  by (simp add: generate_code_def Let_def update_conv')

lemma distinct_init: "distinct (map fst (rooms init))"
  by (simp add: init_def)

lemma code_550: "generateSharingCode (1/2) (1/2) (1/2) = ''550-550-550''"
  by (simp add: generateSharingCode_def number_to_string_def decimal.simps digit_char_def)

lemma code_100: "generateSharingCode 0 0 0 = ''100-100-100''"
  by (simp add: generateSharingCode_def number_to_string_def decimal.simps digit_char_def)


text \<open>
  Claim C1, as the code has it. The \<^verbatim>\<open>generate-code\<close> handler returns the code that
  \<^verbatim>\<open>generateSharingCode\<close> draws and stores the new room under it without looking the code
  up first: after the call the room under that code is the new one (host the requester,
  no viewer, created now), whether or not a room was live under the code before, and the
  room of every other code is as it was. The store is keyed by code, so in every state
  reachable from the empty relay the codes of the live rooms are pairwise distinct.
\<close>

theorem C1_generate_code:
  "snd (generate_code sid r1 r2 r3 now st) = CodeReply (generateSharingCode r1 r2 r3)
   \<and> map_of (rooms (fst (generate_code sid r1 r2 r3 now st))) =
       (map_of (rooms st))(generateSharingCode r1 r2 r3 \<mapsto> \<lparr>host = sid, viewer = None, createdAt = now\<rparr>)
   \<and> distinct (map fst (rooms (run init evs)))"
proof -
  have "snd (generate_code sid r1 r2 r3 now st) = CodeReply (generateSharingCode r1 r2 r3)"
    by (simp add: generate_code_def Let_def)
  moreover have "distinct (map fst (rooms (run init evs)))"
    by (rule distinct_run) (rule distinct_init)
  ultimately show ?thesis
    by (simp add: generate_code_rooms)
qed

theorem C1_generate_code_witness:
  "snd (generate_code ''B'' (1/2) (1/2) (1/2) 2000 (run init [GenerateCode ''A'' (1/2) (1/2) (1/2) 1000]))
     = CodeReply ''550-550-550''
   \<and> map_of (rooms (fst (generate_code ''B'' (1/2) (1/2) (1/2) 2000
         (run init [GenerateCode ''A'' (1/2) (1/2) (1/2) 1000])))) ''550-550-550''
     = Some \<lparr>host = ''B'', viewer = None, createdAt = 2000\<rparr>
   \<and> distinct (map fst (rooms (run init
         [GenerateCode ''A'' (1/2) (1/2) (1/2) 1000, GenerateCode ''B'' (1/2) (1/2) (1/2) 2000])))"
  using C1_generate_code [of "''B''" "1/2" "1/2" "1/2" 2000
      "run init [GenerateCode ''A'' (1/2) (1/2) (1/2) 1000]"
      "[GenerateCode ''A'' (1/2) (1/2) (1/2) 1000, GenerateCode ''B'' (1/2) (1/2) (1/2) 2000]"]
  by (simp add: code_550)


text \<open>
  The claim as the specification states it fails: with the same three random draws, the
  second \<^verbatim>\<open>generate-code\<close> request is answered with the code of a live room, and that
  room's record is replaced (host \<^verbatim>\<open>A\<close> becomes host \<^verbatim>\<open>B\<close>).
\<close>

theorem C1_counterexample:
  "map_of (rooms (run init [GenerateCode ''A'' (1/2) (1/2) (1/2) 1000])) ''550-550-550''
     = Some \<lparr>host = ''A'', viewer = None, createdAt = 1000\<rparr>
   \<and> snd (generate_code ''B'' (1/2) (1/2) (1/2) 2000 (run init [GenerateCode ''A'' (1/2) (1/2) (1/2) 1000]))
     = CodeReply ''550-550-550''
   \<and> rooms (fst (generate_code ''B'' (1/2) (1/2) (1/2) 2000 (run init [GenerateCode ''A'' (1/2) (1/2) (1/2) 1000])))
     = [(''550-550-550'', \<lparr>host = ''B'', viewer = None, createdAt = 2000\<rparr>)]"
  by (simp add: run_def init_def generate_code_def Let_def code_550)


lemma paired_relay_eq:
  "paired_relay =
     \<lparr>rooms = [(''550-550-550'', \<lparr>host = ''H'', viewer = Some ''V'', createdAt = 1000\<rparr>)],
      peers = [(''H'', \<lparr>code = ''550-550-550'', role = Host\<rparr>),
               (''V'', \<lparr>code = ''550-550-550'', role = Viewer\<rparr>)]\<rparr>"
  by (simp add: paired_relay_def run_def init_def generate_code_def join_room_def Let_def code_550)

lemma join_absent:
  "map_of (rooms st) c = None \<Longrightarrow> join_room sid c st = (st, [], ErrorReply ''Invalid sharing code'')"
  by (simp add: join_room_def)


text \<open>
  Claim C2, as the code has it. Let \<^verbatim>\<open>h\<close> be a connection that the peer index binds to a
  live room whose host it is. When \<^verbatim>\<open>h\<close> disconnects, that room is deleted, so a join with
  its code is answered "Invalid sharing code", emits nothing and leaves the state as it
  is, and this stays so after every later sequence of requests in which no
  \<^verbatim>\<open>generate-code\<close> draws the same code again. The handler removes only the record of
  \<^verbatim>\<open>h\<close> from the peer index: the record of a viewer bound to the room stays, and the viewer
  (if any) is sent \<^verbatim>\<open>host-disconnected\<close>. Nothing is said here of a room that names \<^verbatim>\<open>h\<close>
  as its host while the peer index binds \<^verbatim>\<open>h\<close> to another code.
\<close>

theorem C2_host_disconnect:
  assumes "map_of (peers st) h = Some p"
    and "map_of (rooms st) (code p) = Some rm"
    and "host rm = h"
  shows "map_of (rooms (fst (disconnect h st))) (code p) = None
    \<and> join_room x (code p) (fst (disconnect h st))
        = (fst (disconnect h st), [], ErrorReply ''Invalid sharing code'')
    \<and> ((\<forall>e\<in>set evs. \<not> draws (code p) e) \<longrightarrow>
          join_room x (code p) (run (fst (disconnect h st)) evs)
            = (run (fst (disconnect h st)) evs, [], ErrorReply ''Invalid sharing code''))
    \<and> map_of (peers (fst (disconnect h st))) = (map_of (peers st))(h := None)
    \<and> snd (disconnect h st) = (case viewer rm of None \<Rightarrow> [] | Some v \<Rightarrow> [(v, HostDisconnected)])"
proof -
  let ?st' = "fst (disconnect h st)"
  have absent: "map_of (rooms ?st') (code p) = None"
    using assms by (simp add: disconnect_def delete_conv')
  have later: "(\<forall>e\<in>set evs. \<not> draws (code p) e) \<longrightarrow>
      join_room x (code p) (run ?st' evs) = (run ?st' evs, [], ErrorReply ''Invalid sharing code'')"
    using absent_run [OF absent] by (simp add: join_absent)
  have idx: "map_of (peers ?st') = (map_of (peers st))(h := None)"
    using assms by (simp add: disconnect_def delete_conv')
  have out: "snd (disconnect h st) = (case viewer rm of None \<Rightarrow> [] | Some v \<Rightarrow> [(v, HostDisconnected)])"
    using assms by (simp add: disconnect_def)
  show ?thesis
    using absent later idx out by (simp add: join_absent)
qed

theorem C2_host_disconnect_witness:
  "map_of (peers paired_relay) ''H'' = Some \<lparr>code = ''550-550-550'', role = Host\<rparr>
   \<and> map_of (rooms paired_relay) ''550-550-550''
       = Some \<lparr>host = ''H'', viewer = Some ''V'', createdAt = 1000\<rparr>
   \<and> map_of (rooms (fst (disconnect ''H'' paired_relay))) ''550-550-550'' = None
   \<and> join_room ''W'' ''550-550-550''
         (run (fst (disconnect ''H'' paired_relay)) [Sweep 5000, Disconnect ''V''])
       = (run (fst (disconnect ''H'' paired_relay)) [Sweep 5000, Disconnect ''V''], [],
          ErrorReply ''Invalid sharing code'')
   \<and> map_of (peers (fst (disconnect ''H'' paired_relay))) ''H'' = None
   \<and> snd (disconnect ''H'' paired_relay) = [(''V'', HostDisconnected)]"
proof -
  define evs where "evs = [Sweep 5000, Disconnect ''V'']"
  have h1: "map_of (peers paired_relay) ''H'' = Some \<lparr>code = ''550-550-550'', role = Host\<rparr>"
    by (simp add: paired_relay_eq)
  have h2: "map_of (rooms paired_relay) (code \<lparr>code = ''550-550-550'', role = Host\<rparr>)
      = Some \<lparr>host = ''H'', viewer = Some ''V'', createdAt = 1000\<rparr>"
    by (simp add: paired_relay_eq)
  have h3: "host \<lparr>host = ''H'', viewer = Some ''V'', createdAt = 1000\<rparr> = ''H''"
    by simp
  have n: "\<forall>e\<in>set evs. \<not> draws ''550-550-550'' e"
    by (simp add: evs_def)
  have "map_of (rooms (fst (disconnect ''H'' paired_relay))) ''550-550-550'' = None
    \<and> join_room ''W'' ''550-550-550'' (run (fst (disconnect ''H'' paired_relay)) evs)
       = (run (fst (disconnect ''H'' paired_relay)) evs, [], ErrorReply ''Invalid sharing code'')
    \<and> map_of (peers (fst (disconnect ''H'' paired_relay))) ''H'' = None
    \<and> snd (disconnect ''H'' paired_relay) = [(''V'', HostDisconnected)]"
    using C2_host_disconnect [OF h1 h2 h3, of "''W''" evs] n by simp
  with h1 h2 show ?thesis
    unfolding evs_def by simp
qed

text \<open>
  The claim as the specification states it fails in three ways. After the host \<^verbatim>\<open>H\<close> of
  the room has disconnected, its viewer \<^verbatim>\<open>V\<close> is still bound in the peer index. Once a
  later \<^verbatim>\<open>generate-code\<close> has drawn the same code, a join with that code succeeds. And
  when \<^verbatim>\<open>H\<close> has generated two codes, the peer index binds it to the second only: its
  disconnect leaves the first room live, and a join with the first code succeeds and
  names the departed \<^verbatim>\<open>H\<close> as host.
\<close>

theorem C2_counterexample:
  "map_of (peers (fst (disconnect ''H'' paired_relay))) ''V''
     = Some \<lparr>code = ''550-550-550'', role = Viewer\<rparr>
   \<and> snd (snd (join_room ''W'' ''550-550-550''
         (run (fst (disconnect ''H'' paired_relay)) [GenerateCode ''K'' (1/2) (1/2) (1/2) 9000])))
     = JoinReply ''K''
   \<and> map_of (rooms (run init [GenerateCode ''H'' 0 0 0 1000,
         GenerateCode ''H'' (1/2) (1/2) (1/2) 2000, Disconnect ''H''])) ''100-100-100''
     = Some \<lparr>host = ''H'', viewer = None, createdAt = 1000\<rparr>
   \<and> snd (snd (join_room ''W'' ''100-100-100'' (run init [GenerateCode ''H'' 0 0 0 1000,
         GenerateCode ''H'' (1/2) (1/2) (1/2) 2000, Disconnect ''H''])))
     = JoinReply ''H''"
  by (simp add: paired_relay_eq disconnect_def run_def init_def generate_code_def join_room_def
        Let_def code_550 code_100)


text \<open>
  Claim C3. A join with a code absent from the store is answered "Invalid sharing code";
  a join with the code of a room whose viewer slot is taken is answered "Room is full";
  in both cases the state is returned as it was (neither the room nor the peer index is
  touched) and nothing is emitted. Otherwise the joiner becomes the viewer of the room,
  is bound in the peer index, the host is notified and the reply carries the host's id.
\<close>

theorem C3_join_room:
  "(map_of (rooms st) c = None \<longrightarrow>
      join_room sid c st = (st, [], ErrorReply ''Invalid sharing code''))
   \<and> (\<forall>rm v. map_of (rooms st) c = Some rm \<and> viewer rm = Some v \<longrightarrow>
      join_room sid c st = (st, [], ErrorReply ''Room is full''))
   \<and> (\<forall>rm. map_of (rooms st) c = Some rm \<and> viewer rm = None \<longrightarrow>
      snd (snd (join_room sid c st)) = JoinReply (host rm)
      \<and> fst (snd (join_room sid c st)) = [(host rm, ViewerJoined sid)]
      \<and> map_of (rooms (fst (join_room sid c st))) = (map_of (rooms st))(c \<mapsto> rm\<lparr>viewer := Some sid\<rparr>)
      \<and> map_of (peers (fst (join_room sid c st))) = (map_of (peers st))(sid \<mapsto> \<lparr>code = c, role = Viewer\<rparr>))"
  by (simp add: join_room_def update_conv')

theorem C3_join_room_witness:
  "join_room ''W'' ''123-456-789'' paired_relay = (paired_relay, [], ErrorReply ''Invalid sharing code'')
   \<and> join_room ''W'' ''550-550-550'' paired_relay = (paired_relay, [], ErrorReply ''Room is full'')
   \<and> snd (snd (join_room ''V'' ''550-550-550''
         (run init [GenerateCode ''H'' (1/2) (1/2) (1/2) 1000]))) = JoinReply ''H''
   \<and> map_of (rooms (fst (join_room ''V'' ''550-550-550''
         (run init [GenerateCode ''H'' (1/2) (1/2) (1/2) 1000])))) ''550-550-550''
       = Some \<lparr>host = ''H'', viewer = Some ''V'', createdAt = 1000\<rparr>"
proof -
  let ?hosted = "run init [GenerateCode ''H'' (1/2) (1/2) (1/2) 1000]"
  have a: "map_of (rooms paired_relay) ''123-456-789'' = None"
    by (simp add: paired_relay_eq)
  have b: "map_of (rooms paired_relay) ''550-550-550''
      = Some \<lparr>host = ''H'', viewer = Some ''V'', createdAt = 1000\<rparr>"
    by (simp add: paired_relay_eq)
  have c: "map_of (rooms ?hosted) ''550-550-550''
      = Some \<lparr>host = ''H'', viewer = None, createdAt = 1000\<rparr>"
    by (simp add: run_def init_def generate_code_def Let_def code_550)
  show ?thesis
    using C3_join_room [of paired_relay "''123-456-789''" "''W''"]
      C3_join_room [of paired_relay "''550-550-550''" "''W''"]
      C3_join_room [of ?hosted "''550-550-550''" "''V''"] a b c
    by simp
qed


text \<open>
  Claim C7. A sweep at time \<^verbatim>\<open>now\<close> removes a room if and only if
  \<^verbatim>\<open>now - createdAt\<close> is strictly greater than one hour (3600000 ms), and keeps every other
  room unchanged: one second before the room's age reaches the hour it survives, at
  exactly one hour it still survives, and two seconds past the hour it is removed. The
  peer index is not touched by the sweep.
\<close>

theorem C7_sweep:
  assumes "distinct (map fst (rooms st))"
    and "map_of (rooms st) c = Some rm"
  shows "(map_of (rooms (sweep now st)) c = None \<longleftrightarrow> now - createdAt rm > ONE_HOUR)
    \<and> (map_of (rooms (sweep now st)) c = Some rm \<longleftrightarrow> \<not> now - createdAt rm > ONE_HOUR)
    \<and> map_of (rooms (sweep (createdAt rm + ONE_HOUR - 1000) st)) c = Some rm
    \<and> map_of (rooms (sweep (createdAt rm + ONE_HOUR) st)) c = Some rm
    \<and> map_of (rooms (sweep (createdAt rm + ONE_HOUR + 2000) st)) c = None
    \<and> peers (sweep now st) = peers st"
  using assms by (simp add: sweep_map_of) (simp add: sweep_def)

theorem C7_sweep_witness:
  "distinct (map fst (rooms paired_relay))
   \<and> map_of (rooms paired_relay) ''550-550-550''
       = Some \<lparr>host = ''H'', viewer = Some ''V'', createdAt = 1000\<rparr>
   \<and> map_of (rooms (sweep 3600000 paired_relay)) ''550-550-550''
       = Some \<lparr>host = ''H'', viewer = Some ''V'', createdAt = 1000\<rparr>
   \<and> map_of (rooms (sweep 3601000 paired_relay)) ''550-550-550''
       = Some \<lparr>host = ''H'', viewer = Some ''V'', createdAt = 1000\<rparr>
   \<and> map_of (rooms (sweep 3603000 paired_relay)) ''550-550-550'' = None"
proof -
  have d: "distinct (map fst (rooms paired_relay))"
    by (simp add: paired_relay_eq)
  have m: "map_of (rooms paired_relay) ''550-550-550''
      = Some \<lparr>host = ''H'', viewer = Some ''V'', createdAt = 1000\<rparr>"
    by (simp add: paired_relay_eq)
  show ?thesis
    using C7_sweep [OF d m, of 0] d m by (simp add: ONE_HOUR_def)
qed








section \<open>Properties of the SDP transformation\<close>

lemma prefix_straddle:
  assumes "prefix xs (t @ c # w)" and "t \<noteq> []" and "c \<notin> set (tl xs)"
  shows "prefix xs t"
proof -
  from assms(1) have "prefix xs t \<or> (\<exists>us. xs = t @ us \<and> prefix us (c # w))"
    by (simp add: prefix_append)
  then show ?thesis
  proof
    assume "prefix xs t"
    then show ?thesis .
  next
    assume "\<exists>us. xs = t @ us \<and> prefix us (c # w)"
    then obtain us where us: "xs = t @ us" "prefix us (c # w)" by blast
    show ?thesis
    proof (cases us)
      case Nil
      with us show ?thesis by simp
    next
      case (Cons u us')
      with us have "u = c" by simp
      with Cons us assms(2) have "c \<in> set (tl xs)" by (cases t) auto
      with assms(3) show ?thesis by simp
    qed
  qed
qed

lemma takeWhile_digits_app:
  "\<not> is_digit c \<Longrightarrow> takeWhile is_digit (r @ c # w) =
     (if \<forall>x\<in>set r. is_digit x then r else takeWhile is_digit r)"
  by (induction r) auto

lemma dropWhile_digits_app:
  "\<not> is_digit c \<Longrightarrow> dropWhile is_digit (r @ c # w) =
     (if \<forall>x\<in>set r. is_digit x then c # w else dropWhile is_digit r @ c # w)"
  by (induction r) auto

lemma a_not_digit: "\<not> is_digit CHR ''a''"
  by (simp add: is_digit_def)

lemma match_fmtp_straddle:
  assumes "match_fmtp t = None" and "t \<noteq> []"
  shows "match_fmtp (t @ CHR ''a'' # w) = None"
proof (cases "prefix ''a=fmtp:'' (t @ CHR ''a'' # w)")
  case False
  then show ?thesis by (simp add: match_fmtp_def)
next
  case True
  then have p: "prefix ''a=fmtp:'' t"
    using assms(2) by (rule prefix_straddle) simp
  then have len: "7 \<le> length t" by (auto simp: prefix_def)
  let ?r = "drop 7 t"
  show ?thesis
  proof (cases "\<forall>x\<in>set ?r. is_digit x")
    case True
    then show ?thesis
      using len by (simp add: match_fmtp_def Let_def takeWhile_digits_app dropWhile_digits_app a_not_digit)
  next
    case False
    then have ne: "dropWhile is_digit ?r \<noteq> []" by simp
    have "prefix '' '' (dropWhile is_digit ?r @ CHR ''a'' # w) \<Longrightarrow> prefix '' '' (dropWhile is_digit ?r)"
      using ne by (rule prefix_straddle[rotated]) simp_all
    then show ?thesis
      using assms(1) p len False
      by (auto simp: match_fmtp_def Let_def takeWhile_digits_app dropWhile_digits_app a_not_digit
          split: if_splits)
  qed
qed

lemma replace_fmtp_free_app:
  "\<not> fmtp_occurs u \<Longrightarrow> replace_fmtp (u @ CHR ''a'' # w) = u @ replace_fmtp (CHR ''a'' # w)"
proof (induction u)
  case Nil
  then show ?case by simp
next
  case (Cons c cs)
  then have m: "match_fmtp (c # cs) = None" and f: "\<not> fmtp_occurs cs"
    by (auto split: option.splits)
  from m have "match_fmtp ((c # cs) @ CHR ''a'' # w) = None"
    by (rule match_fmtp_straddle) simp
  then show ?case using Cons.IH [OF f] by simp
qed

lemma replace_fmtp_free: "\<not> fmtp_occurs u \<Longrightarrow> replace_fmtp u = u"
  by (induction u) (auto split: option.splits)

lemma match_fmtp_head: "c \<noteq> CHR ''a'' \<Longrightarrow> match_fmtp (c # cs) = None"
  by (simp add: match_fmtp_def)

lemma replace_fmtp_skip: "CHR ''a'' \<notin> set u \<Longrightarrow> replace_fmtp (u @ w) = u @ replace_fmtp w"
  by (induction u) (auto simp: match_fmtp_head)

lemma digits_no_a: "\<forall>c\<in>set pt. is_digit c \<Longrightarrow> CHR ''a'' \<notin> set pt"
  using a_not_digit by auto

lemma match_fmtp_hit:
  assumes "pt \<noteq> []" and "\<forall>c\<in>set pt. is_digit c"
  shows "match_fmtp (''a=fmtp:'' @ pt @ '' '' @ C) = Some (pt, C)"
proof -
  have sp: "\<not> is_digit CHR '' ''" by (simp add: is_digit_def)
  have "takeWhile is_digit (pt @ CHR '' '' # C) = pt" "dropWhile is_digit (pt @ CHR '' '' # C) = CHR '' '' # C"
    using assms(2) sp by (simp_all add: takeWhile_digits_app dropWhile_digits_app)
  then show ?thesis using assms(1) by (simp add: match_fmtp_def Let_def)
qed


lemma prefix_rtpmap_straddle:
  assumes "prefix ''a=rtpmap:'' (t @ CHR ''a'' # CHR ''='' # w)" and "t \<noteq> []"
  shows "prefix ''a=rtpmap:'' t"
proof -
  from assms(1) have "prefix ''a=rtpmap:'' t
      \<or> (\<exists>us. ''a=rtpmap:'' = t @ us \<and> prefix us (CHR ''a'' # CHR ''='' # w))"
    by (simp add: prefix_append)
  then show ?thesis
  proof
    assume "prefix ''a=rtpmap:'' t"
    then show ?thesis .
  next
    assume "\<exists>us. ''a=rtpmap:'' = t @ us \<and> prefix us (CHR ''a'' # CHR ''='' # w)"
    then obtain us where us: "''a=rtpmap:'' = t @ us" "prefix us (CHR ''a'' # CHR ''='' # w)"
      by blast
    from us(2) have "us = [] \<or> us = ''a'' \<or> (\<exists>us'. us = CHR ''a'' # CHR ''='' # us')"
      by (auto simp: prefix_Cons)
    with us(1) assms(2) show ?thesis
      by (auto simp: Cons_eq_append_conv)
  qed
qed

lemma match_h264_straddle:
  assumes "match_h264 t = None" and "t \<noteq> []"
  shows "match_h264 (t @ CHR ''a'' # CHR ''='' # w) = None"
proof (cases "prefix ''a=rtpmap:'' (t @ CHR ''a'' # CHR ''='' # w)")
  case False
  then show ?thesis by (simp add: match_h264_def)
next
  case True
  then have p: "prefix ''a=rtpmap:'' t"
    using assms(2) by (rule prefix_rtpmap_straddle)
  then have len: "9 \<le> length t" by (auto simp: prefix_def)
  let ?r = "drop 9 t"
  show ?thesis
  proof (cases "\<forall>x\<in>set ?r. is_digit x")
    case True
    then show ?thesis
      using len by (simp add: match_h264_def Let_def takeWhile_digits_app dropWhile_digits_app a_not_digit)
  next
    case False
    then have ne: "dropWhile is_digit ?r \<noteq> []" by simp
    have "prefix '' H264'' (dropWhile is_digit ?r @ CHR ''a'' # CHR ''='' # w)
        \<Longrightarrow> prefix '' H264'' (dropWhile is_digit ?r)"
      using ne by (rule prefix_straddle[rotated]) simp_all
    then show ?thesis
      using assms(1) p len False
      by (auto simp: match_h264_def Let_def takeWhile_digits_app dropWhile_digits_app a_not_digit
          split: if_splits)
  qed
qed

lemma replace_h264_free_app:
  "\<not> h264_occurs u \<Longrightarrow>
     replace_h264 (u @ CHR ''a'' # CHR ''='' # w) = u @ replace_h264 (CHR ''a'' # CHR ''='' # w)"
proof (induction u)
  case Nil
  then show ?case by simp
next
  case (Cons c cs)
  then have m: "match_h264 (c # cs) = None" and f: "\<not> h264_occurs cs"
    by (auto split: option.splits)
  from m have "match_h264 ((c # cs) @ CHR ''a'' # CHR ''='' # w) = None"
    by (rule match_h264_straddle) simp
  then show ?case using Cons.IH [OF f] by simp
qed

lemma replace_h264_free: "\<not> h264_occurs u \<Longrightarrow> replace_h264 u = u"
  by (induction u) (auto split: option.splits)

lemma match_h264_head: "c \<noteq> CHR ''a'' \<Longrightarrow> match_h264 (c # cs) = None"
  by (simp add: match_h264_def)

lemma match_h264_head2: "c \<noteq> CHR ''='' \<Longrightarrow> match_h264 (CHR ''a'' # c # cs) = None"
  by (simp add: match_h264_def)

lemma match_h264_head3: "c \<noteq> CHR ''r'' \<Longrightarrow> match_h264 (CHR ''a'' # CHR ''='' # c # cs) = None"
  by (simp add: match_h264_def)

lemma replace_h264_skip: "CHR ''a'' \<notin> set u \<Longrightarrow> replace_h264 (u @ w) = u @ replace_h264 w"
  by (induction u) (auto simp: match_h264_head)

lemma match_h264_hit:
  assumes "pt \<noteq> []" and "\<forall>c\<in>set pt. is_digit c"
  shows "match_h264 (''a=rtpmap:'' @ pt @ '' H264'' @ B) = Some (pt, B)"
proof -
  have sp: "\<not> is_digit CHR '' ''" by (simp add: is_digit_def)
  have "takeWhile is_digit (pt @ CHR '' '' # ''H264'' @ B) = pt"
    "dropWhile is_digit (pt @ CHR '' '' # ''H264'' @ B) = CHR '' '' # ''H264'' @ B"
    using assms(2) sp by (simp_all add: takeWhile_digits_app dropWhile_digits_app)
  then show ?thesis using assms(1) by (simp add: match_h264_def Let_def)
qed

lemma match_fmtp_head3: "c \<noteq> CHR ''f'' \<Longrightarrow> match_fmtp (CHR ''a'' # CHR ''='' # c # cs) = None"
  by (simp add: match_fmtp_def)

lemma match_fmtp_head2: "c \<noteq> CHR ''='' \<Longrightarrow> match_fmtp (CHR ''a'' # c # cs) = None"
  by (simp add: match_fmtp_def)

lemma replace_fmtp_fmtp_line:
  assumes "pt' \<noteq> []" and "\<forall>c\<in>set pt'. is_digit c"
  shows "replace_fmtp (''a=fmtp:'' @ pt' @ '' '' @ W)
    = ''a=fmtp:'' @ pt' @ '' '' @ bitrate_hints @ replace_fmtp W"
  using match_fmtp_hit [OF assms, of W] by simp

lemma replace_fmtp_rtpmap_line:
  assumes "\<forall>c\<in>set pt. is_digit c"
  shows "replace_fmtp (''a=rtpmap:'' @ pt @ '' H264'' @ W)
    = ''a=rtpmap:'' @ pt @ '' H264'' @ replace_fmtp W"
proof -
  have na: "CHR ''a'' \<notin> set (pt @ '' H264'')"
    using digits_no_a [OF assms] by simp
  have m: "replace_fmtp ((pt @ '' H264'') @ W) = (pt @ '' H264'') @ replace_fmtp W"
    using na by (rule replace_fmtp_skip)
  have "replace_fmtp (''a=rtpmap:'' @ (pt @ '' H264'') @ W)
      = ''a=rtpmap:'' @ replace_fmtp ((pt @ '' H264'') @ W)"
    by (simp add: match_fmtp_head match_fmtp_head2 match_fmtp_head3 del: append_assoc)
  with m show ?thesis by simp
qed

lemma replace_h264_rtpmap_line:
  assumes "pt \<noteq> []" and "\<forall>c\<in>set pt. is_digit c"
  shows "replace_h264 (''a=rtpmap:'' @ pt @ '' H264'' @ W)
    = ''a=rtpmap:'' @ pt @ '' H264'' @ CRLF @ ''a=fmtp:'' @ pt @ '' '' @ h264_profile
        @ replace_h264 W"
  using match_h264_hit [OF assms, of W] by simp

lemma replace_h264_hints:
  "replace_h264 ('' '' @ bitrate_hints @ W) = '' '' @ bitrate_hints @ replace_h264 W"
  by (simp add: bitrate_hints_def match_h264_head match_h264_head2)

lemma replace_h264_fmtp_line:
  assumes "\<forall>c\<in>set pt'. is_digit c"
  shows "replace_h264 (''a=fmtp:'' @ pt' @ '' '' @ bitrate_hints @ W)
    = ''a=fmtp:'' @ pt' @ '' '' @ bitrate_hints @ replace_h264 W"
proof -
  let ?hw = "'' '' @ bitrate_hints @ W"
  have d: "replace_h264 (pt' @ ?hw) = pt' @ replace_h264 ?hw"
    using digits_no_a [OF assms] by (rule replace_h264_skip)
  have "replace_h264 (''a=fmtp:'' @ pt' @ ?hw) = ''a=fmtp:'' @ replace_h264 (pt' @ ?hw)"
    by (simp add: match_h264_head match_h264_head2 match_h264_head3 del: append_assoc)
  with d replace_h264_hints [of W] show ?thesis by simp
qed

lemma fmtp_pass_mapping_first:
  assumes pt: "\<forall>c\<in>set pt. is_digit c"
    and pt': "pt' \<noteq> []" "\<forall>c\<in>set pt'. is_digit c"
    and free: "\<not> fmtp_occurs A" "\<not> fmtp_occurs B" "\<not> fmtp_occurs C"
  shows "replace_fmtp (A @ ''a=rtpmap:'' @ pt @ '' H264'' @ B @ ''a=fmtp:'' @ pt' @ '' '' @ C)
    = A @ ''a=rtpmap:'' @ pt @ '' H264'' @ B @ ''a=fmtp:'' @ pt' @ '' '' @ bitrate_hints @ C"
proof -
  let ?tail = "''a=fmtp:'' @ pt' @ '' '' @ C"
  have b: "replace_fmtp (B @ ?tail) = B @ replace_fmtp ?tail"
    using replace_fmtp_free_app [OF free(2), of "''=fmtp:'' @ pt' @ '' '' @ C"] by simp
  have a: "replace_fmtp (A @ ''a=rtpmap:'' @ pt @ '' H264'' @ B @ ?tail)
      = A @ replace_fmtp (''a=rtpmap:'' @ pt @ '' H264'' @ B @ ?tail)"
    using replace_fmtp_free_app [OF free(1), of "''=rtpmap:'' @ pt @ '' H264'' @ B @ ?tail"] by simp
  show ?thesis
    using a b replace_fmtp_rtpmap_line [OF pt, of "B @ ?tail"]
      replace_fmtp_fmtp_line [OF pt', of C] replace_fmtp_free [OF free(3)]
    by simp
qed

lemma h264_pass_mapping_first:
  assumes pt: "pt \<noteq> []" "\<forall>c\<in>set pt. is_digit c"
    and pt': "\<forall>c\<in>set pt'. is_digit c"
    and free: "\<not> h264_occurs A" "\<not> h264_occurs B" "\<not> h264_occurs C"
  shows "replace_h264 (A @ ''a=rtpmap:'' @ pt @ '' H264'' @ B @ ''a=fmtp:'' @ pt' @ '' '' @ bitrate_hints @ C)
    = A @ ''a=rtpmap:'' @ pt @ '' H264'' @ CRLF @ ''a=fmtp:'' @ pt @ '' '' @ h264_profile
        @ B @ ''a=fmtp:'' @ pt' @ '' '' @ bitrate_hints @ C"
proof -
  let ?tail = "''a=fmtp:'' @ pt' @ '' '' @ bitrate_hints @ C"
  have b: "replace_h264 (B @ ?tail) = B @ replace_h264 ?tail"
    using replace_h264_free_app [OF free(2), of "''fmtp:'' @ pt' @ '' '' @ bitrate_hints @ C"] by simp
  have a: "replace_h264 (A @ ''a=rtpmap:'' @ pt @ '' H264'' @ B @ ?tail)
      = A @ replace_h264 (''a=rtpmap:'' @ pt @ '' H264'' @ B @ ?tail)"
    using replace_h264_free_app [OF free(1), of "''rtpmap:'' @ pt @ '' H264'' @ B @ ?tail"] by simp
  show ?thesis
    using a b replace_h264_rtpmap_line [OF pt, of "B @ ?tail"]
      replace_h264_fmtp_line [OF pt', of C] replace_h264_free [OF free(3)]
    by simp
qed

lemma fmtp_pass_parameters_first:
  assumes pt: "\<forall>c\<in>set pt. is_digit c"
    and pt': "pt' \<noteq> []" "\<forall>c\<in>set pt'. is_digit c"
    and free: "\<not> fmtp_occurs A" "\<not> fmtp_occurs B" "\<not> fmtp_occurs C"
  shows "replace_fmtp (A @ ''a=fmtp:'' @ pt' @ '' '' @ B @ ''a=rtpmap:'' @ pt @ '' H264'' @ C)
    = A @ ''a=fmtp:'' @ pt' @ '' '' @ bitrate_hints @ B @ ''a=rtpmap:'' @ pt @ '' H264'' @ C"
proof -
  let ?tail = "''a=rtpmap:'' @ pt @ '' H264'' @ C"
  have b: "replace_fmtp (B @ ?tail) = B @ replace_fmtp ?tail"
    using replace_fmtp_free_app [OF free(2), of "''=rtpmap:'' @ pt @ '' H264'' @ C"] by simp
  have a: "replace_fmtp (A @ ''a=fmtp:'' @ pt' @ '' '' @ B @ ?tail)
      = A @ replace_fmtp (''a=fmtp:'' @ pt' @ '' '' @ B @ ?tail)"
    using replace_fmtp_free_app [OF free(1), of "''=fmtp:'' @ pt' @ '' '' @ B @ ?tail"] by simp
  show ?thesis
    using a b replace_fmtp_fmtp_line [OF pt', of "B @ ?tail"]
      replace_fmtp_rtpmap_line [OF pt, of C] replace_fmtp_free [OF free(3)]
    by simp
qed

lemma h264_pass_parameters_first:
  assumes pt: "pt \<noteq> []" "\<forall>c\<in>set pt. is_digit c"
    and pt': "\<forall>c\<in>set pt'. is_digit c"
    and free: "\<not> h264_occurs A" "\<not> h264_occurs B" "\<not> h264_occurs C"
  shows "replace_h264 (A @ ''a=fmtp:'' @ pt' @ '' '' @ bitrate_hints @ B @ ''a=rtpmap:'' @ pt @ '' H264'' @ C)
    = A @ ''a=fmtp:'' @ pt' @ '' '' @ bitrate_hints @ B
        @ ''a=rtpmap:'' @ pt @ '' H264'' @ CRLF @ ''a=fmtp:'' @ pt @ '' '' @ h264_profile @ C"
proof -
  let ?tail = "''a=rtpmap:'' @ pt @ '' H264'' @ C"
  have b: "replace_h264 (B @ ?tail) = B @ replace_h264 ?tail"
    using replace_h264_free_app [OF free(2), of "''rtpmap:'' @ pt @ '' H264'' @ C"] by simp
  have a: "replace_h264 (A @ ''a=fmtp:'' @ pt' @ '' '' @ bitrate_hints @ B @ ?tail)
      = A @ replace_h264 (''a=fmtp:'' @ pt' @ '' '' @ bitrate_hints @ B @ ?tail)"
    using replace_h264_free_app [OF free(1), of "''fmtp:'' @ pt' @ '' '' @ bitrate_hints @ B @ ?tail"]
    by simp
  show ?thesis
    using a b replace_h264_fmtp_line [OF pt', of "B @ ?tail"]
      replace_h264_rtpmap_line [OF pt, of C] replace_h264_free [OF free(3)]
    by simp
qed

text \<open>
  What the two replacements do, as written, to a descriptor with one occurrence of the
  format-parameter pattern (\<^verbatim>\<open>a=fmtp:\<close>, digits, a space) and one occurrence of the H264
  mapping pattern (\<^verbatim>\<open>a=rtpmap:\<close>, digits, \<^verbatim>\<open> H264\<close>), in either order, the text \<open>A\<close>, \<open>B\<close>,
  \<open>C\<close> around them holding no further occurrence: the hints go directly after the
  \<^verbatim>\<open>a=fmtp:\<close> prefix with its payload type, and the second replacement text goes directly
  after the text the second pattern matched, which ends at \<^verbatim>\<open>H264\<close> and not at the end of
  the mapping line.
\<close>

lemma optimizeSDPForLatency_one_each:
  assumes "pt \<noteq> []" and "\<forall>c\<in>set pt. is_digit c"
    and "pt' \<noteq> []" and "\<forall>c\<in>set pt'. is_digit c"
    and "\<not> fmtp_occurs A" and "\<not> fmtp_occurs B" and "\<not> fmtp_occurs C"
    and "\<not> h264_occurs A" and "\<not> h264_occurs B" and "\<not> h264_occurs C"
  shows "optimizeSDPForLatency
        (A @ ''a=rtpmap:'' @ pt @ '' H264'' @ B @ ''a=fmtp:'' @ pt' @ '' '' @ C)
      = A @ ''a=rtpmap:'' @ pt @ '' H264'' @ CRLF @ ''a=fmtp:'' @ pt @ '' '' @ h264_profile
          @ B @ ''a=fmtp:'' @ pt' @ '' '' @ bitrate_hints @ C
    \<and> optimizeSDPForLatency
        (A @ ''a=fmtp:'' @ pt' @ '' '' @ B @ ''a=rtpmap:'' @ pt @ '' H264'' @ C)
      = A @ ''a=fmtp:'' @ pt' @ '' '' @ bitrate_hints @ B
          @ ''a=rtpmap:'' @ pt @ '' H264'' @ CRLF @ ''a=fmtp:'' @ pt @ '' '' @ h264_profile @ C"
  unfolding optimizeSDPForLatency_def Let_def
  using fmtp_pass_mapping_first [OF assms(2-7)] h264_pass_mapping_first [OF assms(1,2,4) assms(8-10)]
    fmtp_pass_parameters_first [OF assms(2-7)] h264_pass_parameters_first [OF assms(1,2,4) assms(8-10)]
  by simp

text \<open>
  Claim C4: for a descriptor with one format-parameter line and one H264 mapping line
  the output carries the three bitrate hints on the format-parameter line, and a new
  format-parameter line holding exactly
  \<^verbatim>\<open>profile-level-id=42e01f;level-asymmetry-allowed=1;packetization-mode=1\<close> stands
  immediately after the H264 mapping line. The code attempts this and misses it on an
  ordinary descriptor. Its second pattern ends at \<^verbatim>\<open>H264\<close>, so the replacement cuts the
  mapping line \<^verbatim>\<open>a=rtpmap:96 H264/90000\<close> in two: the output holds the line
  \<^verbatim>\<open>a=rtpmap:96 H264\<close>, and the clock rate \<^verbatim>\<open>/90000\<close> ends the inserted line, which
  therefore is not the profile line. The hints stand directly after \<^verbatim>\<open>a=fmtp:96\<close> and its
  space, in front of the parameter the line had.
\<close>

theorem C4_failing_input:
  "sdp_lines example_sdp =
     [''m=video 9 UDP/TLS/RTP/SAVPF 96'',
      ''a=rtcp-mux'',
      ''a=rtpmap:96 H264/90000'',
      ''a=rtcp-fb:96 nack'',
      ''a=fmtp:96 level-asymmetry-allowed=1'',
      []]
   \<and> sdp_lines (optimizeSDPForLatency example_sdp) =
     [''m=video 9 UDP/TLS/RTP/SAVPF 96'',
      ''a=rtcp-mux'',
      ''a=rtpmap:96 H264'',
      ''a=fmtp:96 profile-level-id=42e01f;level-asymmetry-allowed=1;packetization-mode=1/90000'',
      ''a=rtcp-fb:96 nack'',
      ''a=fmtp:96 x-google-max-bitrate=10000;x-google-min-bitrate=2000;x-google-start-bitrate=5000;level-asymmetry-allowed=1'',
      []]
   \<and> ''a=fmtp:96 profile-level-id=42e01f;level-asymmetry-allowed=1;packetization-mode=1''
       \<notin> set (sdp_lines (optimizeSDPForLatency example_sdp))
   \<and> ''a=rtpmap:96 H264/90000'' \<notin> set (sdp_lines (optimizeSDPForLatency example_sdp))"
  by code_simp


section \<open>Properties of the remote-control transport\<close>

lemma enqueue_all_queue: "eventBatchQueue (enqueue_all es st) = eventBatchQueue st @ es"
  by (induction es arbitrary: st) (auto simp: queueControlEvent_def)

lemma controlling_client_reached:
  "client_run initial_client
     [VideoElement True, SetChannel (Some Open), Toggle True,
      OnMouseMove 100 (1/4) (1/2), OnWheel 104 0 120 0, OnMouseMove 105 (1/3) (1/2),
      OnMouseMove 110 (1/2) (1/2)]
   = Inr controlling_client"
  by (simp add: initial_client_def controlling_client_def toggleRemoteControl_def
        startEventBatching_def handleMouseMove_def handleMouseWheel_def queueControlEvent_def
        mouseMoveThrottle_def Let_def)

text \<open>
  Claim C5. While the flush timer is set, a tick with a non-empty queue and an open
  channel sends exactly one message, a batch stamped with the time of the tick that
  holds the first \<open>min (length queue) 50\<close> queued events in queue order, and leaves the
  remaining events queued in their order. The queue order is the enqueue order:
  \<^verbatim>\<open>queueControlEvent\<close> appends at the end.
\<close>

theorem C5_flush_tick:
  assumes "eventBatchInterval st"
    and "eventBatchQueue st \<noteq> []"
    and "dataChannel st = Some Open"
  shows "client_step st (Tick now) =
      Inr (st\<lparr>eventBatchQueue := drop (min (length (eventBatchQueue st)) 50) (eventBatchQueue st),
              sent := sent st @ [Batch (take (min (length (eventBatchQueue st)) 50) (eventBatchQueue st)) now]\<rparr>)
    \<and> take (min (length (eventBatchQueue st)) 50) (eventBatchQueue st)
        @ drop (min (length (eventBatchQueue st)) 50) (eventBatchQueue st) = eventBatchQueue st
    \<and> eventBatchQueue (enqueue_all es st) = eventBatchQueue st @ es"
  using assms
  by (simp add: flush_tick_def channel_open_def channel_send_def maxBatchSize_def Let_def
        enqueue_all_queue min_def)

theorem C5_flush_tick_witness:
  "eventBatchInterval controlling_client
   \<and> eventBatchQueue controlling_client \<noteq> []
   \<and> dataChannel controlling_client = Some Open
   \<and> client_step controlling_client (Tick 116) =
       Inr (controlling_client\<lparr>eventBatchQueue := [],
             sent := [Batch [(MouseMove (1/4) (1/2), 100), (Wheel 0 120 0, 104),
                             (MouseMove (1/2) (1/2), 110)] 116]\<rparr>)
   \<and> client_step (controlling_client\<lparr>eventBatchQueue := replicate 60 (Wheel 0 1 0, 7)\<rparr>) (Tick 116) =
       Inr (controlling_client\<lparr>eventBatchQueue := replicate 10 (Wheel 0 1 0, 7),
             sent := [Batch (replicate 50 (Wheel 0 1 0, 7)) 116]\<rparr>)"
proof -
  let ?full = "controlling_client\<lparr>eventBatchQueue := replicate 60 (Wheel 0 1 0, 7)\<rparr>"
  have a: "eventBatchInterval controlling_client" "eventBatchQueue controlling_client \<noteq> []"
    "dataChannel controlling_client = Some Open"
    by (simp_all add: controlling_client_def)
  have b: "eventBatchInterval ?full" "eventBatchQueue ?full \<noteq> []" "dataChannel ?full = Some Open"
    by (simp_all add: controlling_client_def)
  show ?thesis
    using C5_flush_tick [OF a, of 116 "[]"] C5_flush_tick [OF b, of 116 "[]"] a
    by (simp add: controlling_client_def)
qed

lemma quiet_step:
  assumes "quiet st" and "ev \<noteq> Toggle True"
  shows "\<exists>st'. client_step st ev = Inr st' \<and> quiet st' \<and> sent st' = sent st"
proof (cases ev)
  case (Toggle b)
  with assms show ?thesis
    by (auto simp: quiet_def toggleRemoteControl_def stopEventBatching_def Let_def)
next
  case ChannelClosed
  with assms show ?thesis
    by (auto simp: quiet_def channel_onclose_def Let_def)
qed (use assms in \<open>auto simp: quiet_def handleMouseMove_def handleMouseDown_def handleMouseUp_def
      handleMouseWheel_def handleKeyDown_def handleKeyUp_def\<close>)

lemma quiet_run:
  assumes "quiet st" and "\<forall>ev\<in>set evs. ev \<noteq> Toggle True"
  shows "\<exists>st'. client_run st evs = Inr st' \<and> quiet st' \<and> sent st' = sent st"
  using assms
proof (induction evs arbitrary: st)
  case Nil
  then show ?case by simp
next
  case (Cons ev evs)
  from Cons.prems obtain st1 where s1: "client_step st ev = Inr st1" "quiet st1" "sent st1 = sent st"
    using quiet_step [of st ev] by auto
  from Cons.IH [OF s1(2)] Cons.prems(2) obtain st' where
    "client_run st1 evs = Inr st'" "quiet st'" "sent st' = sent st1"
    by auto
  with s1 show ?case by simp
qed

text \<open>
  Without the video element \<^verbatim>\<open>toggleRemoteControl\<close> only writes the flag: the lookup of the
  element stands before the enabling and the disabling branch alike, so neither
  \<^verbatim>\<open>startEventBatching\<close> nor \<^verbatim>\<open>stopEventBatching\<close> is reached.
\<close>

lemma toggleRemoteControl_no_video:
  "\<not> remoteVideo st \<Longrightarrow> toggleRemoteControl enabled st = st\<lparr>remoteControlEnabled := enabled\<rparr>"
  by (simp add: toggleRemoteControl_def)

text \<open>
  With the video element in the page the disabling does what the else branch of
  \<^verbatim>\<open>toggleRemoteControl\<close> is written to do. Control is disabled while its flush timer
  runs: the queue is emptied whatever it held, the timer is cleared, the cursor style is
  restored, nothing is sent by the disabling itself, and through every later sequence of
  timer ticks, input events, channel changes and repeated disabling that does not enable
  control again no message at all is sent and the queue stays empty.
\<close>

lemma disable_control_with_video:
  assumes "remoteVideo st"
    and "eventBatchInterval st"
    and "\<forall>ev\<in>set evs. ev \<noteq> Toggle True"
  shows "eventBatchQueue (toggleRemoteControl False st) = []
    \<and> \<not> eventBatchInterval (toggleRemoteControl False st)
    \<and> \<not> remoteControlEnabled (toggleRemoteControl False st)
    \<and> sent (toggleRemoteControl False st) = sent st
    \<and> cursor (toggleRemoteControl False st) = ''default''
    \<and> (\<exists>st'. client_run (toggleRemoteControl False st) evs = Inr st'
          \<and> sent st' = sent st \<and> eventBatchQueue st' = [])"
proof -
  let ?off = "toggleRemoteControl False st"
  have q: "quiet ?off"
    using assms(1,2) by (simp add: quiet_def toggleRemoteControl_def stopEventBatching_def Let_def)
  have s: "sent ?off = sent st"
    using assms(1,2) by (simp add: toggleRemoteControl_def stopEventBatching_def Let_def)
  have c: "cursor ?off = ''default''"
    using assms(1,2) by (simp add: toggleRemoteControl_def stopEventBatching_def Let_def)
  from quiet_run [OF q assms(3)] obtain st' where
    "client_run ?off evs = Inr st'" "quiet st'" "sent st' = sent ?off"
    by auto
  with q s c show ?thesis by (auto simp: quiet_def)
qed

text \<open>
  Claim C6: after remote control is disabled, every event that was queued and unsent is
  dropped and no batch is sent until control is enabled again. The code attempts this
  (the disabling branch calls \<^verbatim>\<open>stopEventBatching\<close>, and \<^verbatim>\<open>disconnectFromRemote\<close> calls it
  once more without any test) and misses it when the video element is gone:
  \<^verbatim>\<open>toggleRemoteControl(false)\<close> clears the flag and then returns at
  \<^verbatim>\<open>if (!videoElement) return;\<close>. The timer stays set and the queue keeps its three
  events, and the next tick sends them as a batch although control is disabled. This
  happens for a direct call, and for the call made by the \<^verbatim>\<open>onclose\<close> handler when the
  channel has closed and another channel is open by the time of the tick.
\<close>

theorem C6_failing_input:
  "toggleRemoteControl False (controlling_client\<lparr>remoteVideo := False\<rparr>)
     = controlling_client\<lparr>remoteVideo := False, remoteControlEnabled := False\<rparr>
   \<and> client_run controlling_client [VideoElement False, Toggle False, Tick 116]
     = Inr (controlling_client\<lparr>remoteVideo := False, remoteControlEnabled := False,
          eventBatchQueue := [],
          sent := [Batch [(MouseMove (1/4) (1/2), 100), (Wheel 0 120 0, 104),
                          (MouseMove (1/2) (1/2), 110)] 116]\<rparr>)
   \<and> client_run controlling_client
       [VideoElement False, SetChannel (Some Closed), ChannelClosed, SetChannel (Some Open), Tick 116]
     = Inr (controlling_client\<lparr>remoteVideo := False, remoteControlEnabled := False,
          eventBatchQueue := [],
          sent := [Batch [(MouseMove (1/4) (1/2), 100), (Wheel 0 120 0, 104),
                          (MouseMove (1/2) (1/2), 110)] 116]\<rparr>)"
  by (simp add: controlling_client_def toggleRemoteControl_def channel_onclose_def flush_tick_def
        channel_open_def channel_send_def maxBatchSize_def Let_def)

lemma send_not_open:
  "dataChannel st \<noteq> Some Open \<Longrightarrow> sendControlEventImmediate e now st = Inr st"
  by (auto simp: sendControlEventImmediate_def channel_open_def split: option.splits)

lemma flush_not_open:
  "dataChannel st \<noteq> Some Open \<Longrightarrow> flush_tick now st = Inr st"
  by (auto simp: flush_tick_def channel_open_def split: option.splits)

lemma send_total: "\<exists>st'. sendControlEventImmediate e now st = Inr st'"
  by (auto simp: sendControlEventImmediate_def channel_open_def channel_send_def split: option.splits)

lemma flush_total: "\<exists>st'. flush_tick now st = Inr st'"
  by (auto simp: flush_tick_def channel_open_def channel_send_def Let_def split: option.splits)

text \<open>
  Claim C9. When the data channel is absent or its state is not \<^verbatim>\<open>open\<close>, an immediate
  send, a flush tick and every handler that sends immediately return normally with the
  state unchanged: no message is recorded as sent, no exception is raised, and no status
  message is shown.
\<close>

theorem C9_closed_channel:
  assumes "dataChannel st \<noteq> Some Open"
  shows "sendControlEventImmediate e now st = Inr st
    \<and> flush_tick now st = Inr st
    \<and> client_step st (Tick now) = Inr st
    \<and> handleMouseDown now button x y st = Inr st
    \<and> handleMouseUp now button x y st = Inr st
    \<and> handleKeyDown now key kcode c s a m st = Inr st
    \<and> handleKeyUp now key kcode c s a m st = Inr st"
  using assms
  by (simp add: send_not_open flush_not_open handleMouseDown_def handleMouseUp_def
        handleKeyDown_def handleKeyUp_def)

theorem C9_closed_channel_witness:
  "dataChannel (controlling_client\<lparr>dataChannel := Some Connecting\<rparr>) \<noteq> Some Open
   \<and> dataChannel (controlling_client\<lparr>dataChannel := None\<rparr>) \<noteq> Some Open
   \<and> sendControlEventImmediate (MouseDown 0 (1/2) (1/2)) 120
        (controlling_client\<lparr>dataChannel := Some Connecting\<rparr>)
       = Inr (controlling_client\<lparr>dataChannel := Some Connecting\<rparr>)
   \<and> client_step (controlling_client\<lparr>dataChannel := None\<rparr>) (Tick 116)
       = Inr (controlling_client\<lparr>dataChannel := None\<rparr>)
   \<and> handleKeyDown 120 ''a'' ''KeyA'' False False False False
        (controlling_client\<lparr>dataChannel := Some Closed\<rparr>)
       = Inr (controlling_client\<lparr>dataChannel := Some Closed\<rparr>)"
proof -
  have a: "dataChannel (controlling_client\<lparr>dataChannel := Some Connecting\<rparr>) \<noteq> Some Open"
    and b: "dataChannel (controlling_client\<lparr>dataChannel := None\<rparr>) \<noteq> Some Open"
    and c: "dataChannel (controlling_client\<lparr>dataChannel := Some Closed\<rparr>) \<noteq> Some Open"
    by simp_all
  show ?thesis
    using C9_closed_channel [OF a, of "MouseDown 0 (1/2) (1/2)" 120]
      C9_closed_channel [OF b, of _ 116]
      C9_closed_channel [OF c, of _ 120 _ _ _ "''a''" "''KeyA''" False False False False]
    by simp
qed


section \<open>Properties of the sharing-code formatter\<close>

lemma dash_not_digit: "\<not> is_digit CHR ''-''"
  by (simp add: is_digit_def)

lemma take9_split: "take 3 ds @ take 3 (drop 3 ds) @ take 3 (drop 6 ds) = take 9 ds"
proof -
  have "take 9 ds = take (3 + (3 + 3)) ds" by simp
  also have "\<dots> = take 3 ds @ take 3 (drop 3 ds) @ take 3 (drop 6 ds)"
    unfolding take_add by (simp add: add.commute)
  finally show ?thesis by simp
qed

lemma digits_of_formatSharingCode:
  "filter is_digit (formatSharingCode s) = take 9 (filter is_digit s)"
proof -
  define ds where "ds = filter is_digit s"
  have all: "filter is_digit ds = ds" by (simp add: ds_def)
  have t: "\<And>n. filter is_digit (take n ds) = take n ds"
    by (metis all filter_id_conv in_set_takeD)
  have d: "\<And>n. filter is_digit (drop n ds) = drop n ds"
    by (metis all filter_id_conv in_set_dropD)
  have td: "\<And>n m. filter is_digit (take n (drop m ds)) = take n (drop m ds)"
    by (metis d filter_id_conv in_set_takeD)
  show ?thesis
    unfolding formatSharingCode_def Let_def ds_def[symmetric]
    using take9_split[of ds]
    by (auto simp: all t d td dash_not_digit)
qed

lemma filter_digit_take: "filter is_digit (take n (filter is_digit s)) = take n (filter is_digit s)"
  by (rule filter_True) (auto dest: in_set_takeD)

lemma format_take9: "formatSharingCode (take 9 (filter is_digit s)) = formatSharingCode s"
  unfolding formatSharingCode_def Let_def filter_digit_take
  by (auto simp: min_def take_drop)


text \<open>
  Claim C10. Formatting is idempotent, and the result is a function of the first nine
  digit characters of the input alone: the digits of the output are exactly those nine
  (or fewer), so digits past the ninth are discarded.
\<close>

theorem C10_formatSharingCode: "formatSharingCode (formatSharingCode s) = formatSharingCode s
  \<and> formatSharingCode s = formatSharingCode (take 9 (filter is_digit s))
  \<and> filter is_digit (formatSharingCode s) = take 9 (filter is_digit s)"
proof -
  have "formatSharingCode (formatSharingCode s)
      = formatSharingCode (take 9 (filter is_digit (formatSharingCode s)))"
    by (simp only: format_take9)
  also have "\<dots> = formatSharingCode (take 9 (filter is_digit s))"
    by (simp add: digits_of_formatSharingCode)
  also have "\<dots> = formatSharingCode s"
    by (rule format_take9)
  finally show ?thesis
    by (simp add: format_take9 digits_of_formatSharingCode)
qed


theorem C10_formatSharingCode_witness:
  "formatSharingCode (formatSharingCode ''12a34567890123'') = formatSharingCode ''12a34567890123''
   \<and> formatSharingCode ''12a34567890123'' = ''123-456-789''
   \<and> filter is_digit (formatSharingCode ''12a34567890123'') = ''123456789''"
  using C10_formatSharingCode [of "''12a34567890123''"]
  by (simp add: formatSharingCode_def is_digit_def)

end
